theory Spec2Isabelle
  imports Main
begin

section \<open>binsnitch: the registry of tracked files\<close>

text \<open>
  The embedding follows \<^verbatim>\<open>binsnitch.py\<close>. The program keeps three pieces of state:
  the file \<^verbatim>\<open>binsnitch_data/db.json\<close>, the file \<^verbatim>\<open>binsnitch_data/alerts.log\<close> and the
  module global \<^verbatim>\<open>cached_db\<close>. Every function that reads or writes one of them takes
  the state and returns it.
\<close>

subsection \<open>Data\<close>

text \<open>The three status constants.\<close>

datatype status = FILE_KNOWN_UNTOUCHED | FILE_KNOWN_TOUCHED | FILE_UNKNOWN

text \<open>
  \<^verbatim>\<open>file_info\<close> is the dictionary \<^verbatim>\<open>{"path": ..., "sha256": ...}\<close> of one observation;
  \<^verbatim>\<open>db_file\<close> is one element of the list stored in \<^verbatim>\<open>db.json\<close>, whose \<^verbatim>\<open>"sha256"\<close>
  is the list of digests seen for the path, oldest first.
\<close>

record file_info =
  info_path :: string
  info_sha256 :: string

record db_file =
  path :: string
  sha256 :: "string list"

text \<open>
  The content of \<^verbatim>\<open>db.json\<close>: the file is absent (\<^verbatim>\<open>open\<close> raises), it does not parse
  (\<^verbatim>\<open>json.load\<close> raises), or it holds a list of records. The list is kept as a list: the
  code never checks that a path occurs once.
\<close>

datatype json_file = Missing | Corrupt | Json "db_file list"

datatype error = FileNotFoundError | JSONDecodeError | TypeError

text \<open>What \<^verbatim>\<open>print\<close> wrote: a line of text, or the rendering of \<^verbatim>\<open>sys.exc_info()\<close>.\<close>

datatype stdout_item = Text string | ExcInfo error

text \<open>The disposition of \<^verbatim>\<open>SIGINT\<close>.\<close>

datatype sigint_handler = SIG_DFL | SIG_IGN | Signal_handler

text \<open>
  \<^item> \<open>db_json\<close>: the file \<^verbatim>\<open>binsnitch_data/db.json\<close>;
  \<^item> \<open>alerts_log\<close>: the lines of \<^verbatim>\<open>binsnitch_data/alerts.log\<close>, \<open>None\<close> when the file
    is absent;
  \<^item> \<open>cached_db\<close>: the global of that name, \<open>None\<close> until it is loaded;
  \<^item> \<open>logged\<close>: the messages handed to \<^verbatim>\<open>logging.info\<close>, in order. The configuration
    of logging in \<^verbatim>\<open>main\<close> (\<^verbatim>\<open>basicConfig\<close> with \<^verbatim>\<open>alerts.log\<close> as file and level
    \<^verbatim>\<open>INFO\<close>) is commented out, so the root logger keeps its level \<^verbatim>\<open>WARNING\<close> and has
    no handler on \<^verbatim>\<open>alerts.log\<close>: these messages do not become lines of \<open>alerts_log\<close>;
  \<^item> \<open>printed\<close>: what was written to standard output;
  \<^item> \<open>db_writes\<close>: how many times \<^verbatim>\<open>db.json\<close> was written;
  \<^item> \<open>sigint\<close>: the installed \<^verbatim>\<open>SIGINT\<close> handler;
  \<^item> \<open>watches\<close>: the directories scheduled on the observer.
\<close>

record state =
  db_json :: json_file
  alerts_log :: "string list option"
  cached_db :: "db_file list option"
  logged :: "string list"
  printed :: "stdout_item list"
  db_writes :: nat
  sigint :: sigint_handler
  watches :: "string list"

subsection \<open>Classification\<close>

text \<open>
  The loop of \<^verbatim>\<open>check_file_status\<close>. It carries the flag \<^verbatim>\<open>known_path\<close>; the function
  returns from inside the loop at the first record with the path, and after the loop it
  returns \<^verbatim>\<open>FILE_UNKNOWN\<close> when the flag is unset and falls off its end (Python's
  \<^verbatim>\<open>None\<close>) otherwise.
\<close>

fun check_loop :: "file_info \<Rightarrow> bool \<Rightarrow> db_file list \<Rightarrow> status option" where
  "check_loop fi known_path [] = (if \<not> known_path then Some FILE_UNKNOWN else None)"
| "check_loop fi known_path (f # fs) =
     (if path f = info_path fi
      then (if info_sha256 fi \<in> set (sha256 f)
            then Some FILE_KNOWN_UNTOUCHED
            else Some FILE_KNOWN_TOUCHED)
      else check_loop fi known_path fs)"

text \<open>
  \<^verbatim>\<open>check_file_status\<close> iterates over \<^verbatim>\<open>cached_db\<close>; iterating over \<^verbatim>\<open>None\<close> raises
  \<^verbatim>\<open>TypeError\<close>. The state is returned as the call leaves it.
\<close>

definition check_file_status :: "file_info \<Rightarrow> state \<Rightarrow> (error + status option) \<times> state" where
  "check_file_status fi st =
     (case cached_db st of
        None \<Rightarrow> (Inl TypeError, st)
      | Some db \<Rightarrow> (Inr (check_loop fi False db), st))"

text \<open>
  The digest history of a path in a registry: that of the first record carrying the
  path, the one a scan of the list reaches.
\<close>

definition digest_history :: "db_file list \<Rightarrow> string \<rightharpoonup> string list" where
  "digest_history db p = map_option sha256 (find (\<lambda>f. path f = p) db)"

subsection \<open>Persistence\<close>

text \<open>
  \<^verbatim>\<open>with open("binsnitch_data/db.json") as data_file: db_data = json.load(data_file)\<close>:
  the two ways it raises, or the list read.
\<close>

definition json_load :: "state \<Rightarrow> error + db_file list" where
  "json_load st =
     (case db_json st of
        Missing \<Rightarrow> Inl FileNotFoundError
      | Corrupt \<Rightarrow> Inl JSONDecodeError
      | Json db_data \<Rightarrow> Inr db_data)"

text \<open>
  \<^verbatim>\<open>write_to_db\<close>: \<^verbatim>\<open>SIGINT\<close> is set to be ignored and the previous handler kept in
  \<^verbatim>\<open>s\<close>, the whole list is dumped over \<^verbatim>\<open>db.json\<close>, and \<^verbatim>\<open>s\<close> is installed again.
\<close>

definition write_to_db :: "db_file list \<Rightarrow> state \<Rightarrow> state" where
  "write_to_db db_data st =
     (let s = sigint st;
          st1 = st\<lparr>sigint := SIG_IGN\<rparr>;
          st2 = st1\<lparr>db_json := Json db_data, db_writes := db_writes st1 + 1\<rparr>
      in st2\<lparr>sigint := s\<rparr>)"

subsection \<open>Recording\<close>

text \<open>
  The body of the loop of \<^verbatim>\<open>add_alert_do_db\<close> for one record: the record as the body
  leaves it and the messages it hands to \<^verbatim>\<open>logging.info\<close>.
\<close>

definition alert_entry :: "file_info \<Rightarrow> status \<Rightarrow> db_file \<Rightarrow> db_file \<times> string list" where
  "alert_entry fi status f =
     (if path f = info_path fi
      then
        (let f1 = (if info_sha256 fi \<notin> set (sha256 f)
                   then f\<lparr>sha256 := sha256 f @ [info_sha256 fi]\<rparr>
                   else f);
             new_msg = (if status = FILE_UNKNOWN
                        then [''New file detected: '' @ path f1 @ '' - hash: '' @ info_sha256 fi]
                        else []);
             mod_msg = (if status = FILE_KNOWN_TOUCHED
                        then [''Modified file detected: '' @ path f1 @ '' - new hash: ''
                                @ info_sha256 fi]
                        else [])
         in (f1, new_msg @ mod_msg))
      else (f, []))"

text \<open>The loop runs over every record of the list: there is no \<^verbatim>\<open>break\<close>.\<close>

fun alert_loop :: "file_info \<Rightarrow> status \<Rightarrow> db_file list \<Rightarrow> db_file list \<times> string list" where
  "alert_loop fi status [] = ([], [])"
| "alert_loop fi status (f # fs) =
     (let (f', msgs) = alert_entry fi status f;
          (fs', rest) = alert_loop fi status fs
      in (f' # fs', msgs @ rest))"

definition add_alert_do_db :: "file_info \<Rightarrow> status \<Rightarrow> state \<Rightarrow> error + state" where
  "add_alert_do_db fi status st =
     (case json_load st of
        Inl e \<Rightarrow> Inl e
      | Inr db_data \<Rightarrow>
          (let (db_data', msgs) = alert_loop fi status db_data;
               st1 = st\<lparr>logged := logged st @ msgs\<rparr>;
               st2 = st1\<lparr>cached_db := Some db_data'\<rparr>
           in Inr (write_to_db db_data' st2)))"

definition add_file_to_db :: "file_info \<Rightarrow> state \<Rightarrow> error + state" where
  "add_file_to_db fi st =
     (case json_load st of
        Inl e \<Rightarrow> Inl e
      | Inr db_data \<Rightarrow>
          (let file_info_to_add = \<lparr>path = info_path fi, sha256 = [info_sha256 fi]\<rparr>;
               db_data' = db_data @ [file_info_to_add];
               st1 = st\<lparr>cached_db := Some db_data'\<rparr>
           in Inr (write_to_db db_data' st1)))"

text \<open>
  A record operation is a call of one of the two functions that write the registry; a
  sequence of them stops at the first exception.
\<close>

datatype record_op = Add_alert file_info status | Add_file file_info

fun record_step :: "record_op \<Rightarrow> state \<Rightarrow> error + state" where
  "record_step (Add_alert fi status) st = add_alert_do_db fi status st"
| "record_step (Add_file fi) st = add_file_to_db fi st"

fun record_all :: "record_op list \<Rightarrow> state \<Rightarrow> error + state" where
  "record_all [] st = Inr st"
| "record_all (x # xs) st =
     (case record_step x st of Inl e \<Rightarrow> Inl e | Inr st' \<Rightarrow> record_all xs st')"

subsection \<open>Startup\<close>

text \<open>
  \<^verbatim>\<open>refresh_cache\<close> catches every exception of the load and prints
  \<^verbatim>\<open>sys.exc_info()\<close>; the cache then keeps its value.
\<close>

definition refresh_cache :: "state \<Rightarrow> state" where
  "refresh_cache st =
     (case json_load st of
        Inr db_data \<Rightarrow> st\<lparr>cached_db := Some db_data\<rparr>
      | Inl e \<Rightarrow> st\<lparr>printed := printed st @ [ExcInfo e]\<rparr>)"

text \<open>The parsed command line.\<close>

record args =
  dir :: string
  verbose :: bool
  singlepass :: bool
  all :: bool
  new :: bool
  baseline :: bool
  wipe :: bool

text \<open>
  \<^verbatim>\<open>os.remove\<close> of each persisted file: it raises when the file is absent. A file that is
  there is taken to be removable.
\<close>

definition remove_db_json :: "state \<Rightarrow> error + state" where
  "remove_db_json st =
     (if db_json st = Missing then Inl FileNotFoundError else Inr (st\<lparr>db_json := Missing\<rparr>))"

definition remove_alerts_log :: "state \<Rightarrow> error + state" where
  "remove_alerts_log st =
     (if alerts_log st = None then Inl FileNotFoundError else Inr (st\<lparr>alerts_log := None\<rparr>))"

text \<open>
  The block \<^verbatim>\<open>with suppress(IOError)\<close> of \<^verbatim>\<open>prepare_data_files\<close>: both removals are
  inside it, so an exception of the first one leaves the block before the second.
\<close>

definition wipe_block :: "args \<Rightarrow> state \<Rightarrow> state" where
  "wipe_block a st =
     (if wipe a
      then (case remove_db_json st of
              Inl e \<Rightarrow> st
            | Inr st1 \<Rightarrow> (case remove_alerts_log st1 of Inl e \<Rightarrow> st1 | Inr st2 \<Rightarrow> st2))
      else st)"

text \<open>
  \<^verbatim>\<open>prepare_data_files\<close>: the wipe, then (the folder \<^verbatim>\<open>binsnitch_data\<close> is created when
  it is absent, so that the writes below succeed) \<^verbatim>\<open>db.json\<close> is created holding
  \<^verbatim>\<open>[]\<close> when it cannot be opened, \<^verbatim>\<open>alerts.log\<close> is created empty when it cannot be
  opened, and the cache is loaded.
\<close>

definition prepare_data_files :: "args \<Rightarrow> state \<Rightarrow> state" where
  "prepare_data_files a st =
     (let st1 = wipe_block a st;
          st2 = (if db_json st1 = Missing
                 then st1\<lparr>db_json := Json [], db_writes := db_writes st1 + 1\<rparr>
                 else st1);
          st3 = (if alerts_log st2 = None then st2\<lparr>alerts_log := Some []\<rparr> else st2)
      in refresh_cache st3)"

text \<open>
  How a run of \<^verbatim>\<open>scan\<close> ends: \<^verbatim>\<open>exit()\<close> raises \<^verbatim>\<open>SystemExit\<close> with the argument it
  was given (none here), or the call blocks in \<^verbatim>\<open>observer.join()\<close>.
\<close>

datatype outcome = SystemExit "int option" | Observer_join

text \<open>
  The exit status of the process for \<^verbatim>\<open>SystemExit(code)\<close>: \<^verbatim>\<open>None\<close> is status 0, an
  integer is that status.
\<close>

fun exit_status :: "int option \<Rightarrow> int" where
  "exit_status None = 0"
| "exit_status (Some n) = n"

text \<open>
  \<^verbatim>\<open>scan\<close>; \<open>isdir\<close> is \<^verbatim>\<open>os.path.isdir\<close> on the file system of the run.
\<close>

definition scan :: "(string \<Rightarrow> bool) \<Rightarrow> args \<Rightarrow> state \<Rightarrow> outcome \<times> state" where
  "scan isdir a st =
     (let st1 = st\<lparr>logged := logged st @
                   [''Scanning '' @ dir a @ '' for new and modified files, this can take a long time'']\<rparr>
      in if \<not> isdir (dir a)
         then (SystemExit None,
               st1\<lparr>printed := printed st1 @
                     [Text (''Error: '' @ dir a @ '' could not be read, exiting.'')]\<rparr>)
         else (Observer_join,
               st1\<lparr>watches := watches st1 @ [dir a], sigint := Signal_handler\<rparr>))"

text \<open>
  \<^verbatim>\<open>main\<close> parses the command line (here: receives it parsed) and calls \<^verbatim>\<open>scan\<close>. Its
  call of \<^verbatim>\<open>prepare_data_files\<close> is commented out in the source, and so it is absent
  here.
\<close>

definition main :: "(string \<Rightarrow> bool) \<Rightarrow> args \<Rightarrow> state \<Rightarrow> outcome \<times> state" where
  "main isdir a st = scan isdir a st"

text \<open>
  The exit status a run ends with, if it ends: none while the call waits in
  \<^verbatim>\<open>observer.join()\<close>.
\<close>

fun process_status :: "outcome \<Rightarrow> int option" where
  "process_status (SystemExit code) = Some (exit_status code)"
| "process_status Observer_join = None"

subsection \<open>The extension list\<close>

definition dangerous_extensions :: "string set" where
  "dangerous_extensions = set
    [''DMG'', ''DLL'', ''ACTION'', ''APK'', ''APP'', ''BAT'', ''BIN'', ''CMD'', ''COM'', ''COMMAND'',
     ''CPL'', ''CSH'', ''EXE'', ''GADGET'', ''INF1'', ''INS'', ''INX'', ''IPA'', ''ISU'', ''JOB'',
     ''JSE'', ''KSH'', ''LNK'', ''MSC'', ''MSI'', ''MSP'', ''MST'', ''OSX'', ''OUT'', ''PAF'', ''PIF'',
     ''PRG'', ''PS1'', ''REG'', ''RGS'', ''RUN'', ''SCT'', ''SH'', ''SHB'', ''SHS'', ''U3P'', ''VB'',
     ''VBE'', ''VBS'', ''VBSCRIPT'', ''WORKFLOW'', ''WS'', ''WSF'']"

subsection \<open>The filter\<close>

text \<open>
  Modelled from the spec: the filter \<^verbatim>\<open>isRelevant(path, trackAll)\<close> of the specification
  (section 4.2) is missing from \<^verbatim>\<open>binsnitch.py\<close>, which holds the list
  \<^verbatim>\<open>dangerous_extensions\<close> and no function that tests a path against it. Following the
  specification, a path of a regular file is relevant when \<open>trackAll\<close> is set or when
  its extension, compared without regard to case, is in the list. The extension is
  taken to be the text after the last dot of the last component of the path, and case
  is that of the ASCII letters.
\<close>

definition upper_char :: "char \<Rightarrow> char" where
  "upper_char c =
     (case map_of (zip ''abcdefghijklmnopqrstuvwxyz'' ''ABCDEFGHIJKLMNOPQRSTUVWXYZ'') c of
        Some u \<Rightarrow> u
      | None \<Rightarrow> c)"

definition same_ignoring_case :: "string \<Rightarrow> string \<Rightarrow> bool" where
  "same_ignoring_case a b \<longleftrightarrow> map upper_char a = map upper_char b"

definition basename :: "string \<Rightarrow> string" where
  "basename p = rev (takeWhile (\<lambda>c. c \<noteq> CHR ''/'') (rev p))"

definition extension :: "string \<Rightarrow> string" where
  "extension p =
     (let b = basename p
      in if CHR ''.'' \<in> set b then rev (takeWhile (\<lambda>c. c \<noteq> CHR ''.'') (rev b)) else [])"

definition is_relevant :: "string \<Rightarrow> bool \<Rightarrow> bool" where
  "is_relevant p trackAll \<longleftrightarrow>
     trackAll \<or> (\<exists>e\<in>dangerous_extensions. same_ignoring_case (extension p) e)"

subsection \<open>Notions used in the statements\<close>

text \<open>
  A digest is recorded for a path when the path has a record and every record of the
  path holds the digest. In a list that holds each path once this says that the
  digest is in the history of the path.
\<close>

definition recorded :: "db_file list \<Rightarrow> string \<Rightarrow> string \<Rightarrow> bool" where
  "recorded db p d \<longleftrightarrow>
     (\<exists>f\<in>set db. path f = p) \<and> (\<forall>f\<in>set db. path f = p \<longrightarrow> d \<in> set (sha256 f))"

text \<open>
  One record after some writes, against the same record before them: the path is the
  same, and the history is the old one followed by at most \<open>n\<close> digests, all different
  and none of them in the old history.
\<close>

definition hist_rel :: "nat \<Rightarrow> db_file \<Rightarrow> db_file \<Rightarrow> bool" where
  "hist_rel n f f' \<longleftrightarrow>
     path f' = path f \<and>
     (\<exists>ext. sha256 f' = sha256 f @ ext \<and> distinct ext \<and> set ext \<inter> set (sha256 f) = {}
        \<and> length ext \<le> n)"

text \<open>The same for a whole list: the old records stay where they are, new ones follow.\<close>

definition db_rel :: "nat \<Rightarrow> db_file list \<Rightarrow> db_file list \<Rightarrow> bool" where
  "db_rel n db db' \<longleftrightarrow>
     length db \<le> length db' \<and> list_all2 (hist_rel n) db (take (length db) db')"

subsection \<open>A small run\<close>

text \<open>
  A registry with one tracked file, one line in the alert log, and a file system on
  which only \<^verbatim>\<open>/srv\<close> is a directory.
\<close>

definition example_db :: "db_file list" where
  "example_db = [\<lparr>path = ''/srv/payload.exe'', sha256 = [''aa'']\<rparr>]"

definition example_state :: state where
  "example_state =
     \<lparr>db_json = Json example_db, alerts_log = Some [''Modified file detected: /srv/old.sh''],
      cached_db = Some example_db, logged = [], printed = [], db_writes = 0,
      sigint = SIG_DFL, watches = []\<rparr>"

definition example_isdir :: "string \<Rightarrow> bool" where
  "example_isdir d \<longleftrightarrow> d = ''/srv''"

definition example_args :: "string \<Rightarrow> args" where
  "example_args d =
     \<lparr>dir = d, verbose = False, singlepass = False, all = False, new = False,
      baseline = True, wipe = True\<rparr>"

section \<open>Properties\<close>

subsection \<open>Reading the registry file\<close>

lemma json_load_Json: "db_json st = Json db \<Longrightarrow> json_load st = Inr db"
  by (simp add: json_load_def)

subsection \<open>Classification\<close>

lemma check_loop_history:
  "check_loop fi False db =
     (case digest_history db (info_path fi) of
        None \<Rightarrow> Some FILE_UNKNOWN
      | Some h \<Rightarrow> if info_sha256 fi \<in> set h then Some FILE_KNOWN_UNTOUCHED
                  else Some FILE_KNOWN_TOUCHED)"
  by (induction db) (simp_all add: digest_history_def)


lemma digest_history_None: "digest_history db p = None \<longleftrightarrow> p \<notin> path ` set db"
  by (induction db) (auto simp add: digest_history_def)

text \<open>
  C1. Classification of an observation against the cached registry: \<^verbatim>\<open>FILE_UNKNOWN\<close>
  when no record has the path; otherwise the path has a digest history, and the result
  is \<^verbatim>\<open>FILE_KNOWN_UNTOUCHED\<close> when the digest is anywhere in that history and
  \<^verbatim>\<open>FILE_KNOWN_TOUCHED\<close> when it is not.
\<close>

theorem check_file_status_classifies:
  assumes "cached_db st = Some db"
  shows "(info_path fi \<notin> path ` set db \<longrightarrow>
            fst (check_file_status fi st) = Inr (Some FILE_UNKNOWN))
       \<and> (info_path fi \<in> path ` set db \<longrightarrow>
            (\<exists>h. digest_history db (info_path fi) = Some h
               \<and> fst (check_file_status fi st) =
                   Inr (Some (if info_sha256 fi \<in> set h then FILE_KNOWN_UNTOUCHED
                              else FILE_KNOWN_TOUCHED))))"
proof -
  have res: "fst (check_file_status fi st) = Inr (check_loop fi False db)"
    using assms by (simp add: check_file_status_def)
  show ?thesis
  proof (cases "digest_history db (info_path fi)")
    case None
    then have "info_path fi \<notin> path ` set db"
      by (simp add: digest_history_None)
    with None res show ?thesis
      by (simp add: check_loop_history)
  next
    case (Some h)
    then have "info_path fi \<in> path ` set db"
      using digest_history_None [of db "info_path fi"] by simp
    with Some show ?thesis
      using res by (simp add: check_loop_history)
  qed
qed

theorem check_file_status_classifies_witness:
  "cached_db example_state = Some example_db
   \<and> fst (check_file_status \<lparr>info_path = ''/srv/new.sh'', info_sha256 = ''aa''\<rparr> example_state)
       = Inr (Some FILE_UNKNOWN)
   \<and> fst (check_file_status \<lparr>info_path = ''/srv/payload.exe'', info_sha256 = ''aa''\<rparr> example_state)
       = Inr (Some FILE_KNOWN_UNTOUCHED)
   \<and> fst (check_file_status \<lparr>info_path = ''/srv/payload.exe'', info_sha256 = ''bb''\<rparr> example_state)
       = Inr (Some FILE_KNOWN_TOUCHED)"
proof -
  have h: "cached_db example_state = Some example_db"
    by (simp add: example_state_def)
  show ?thesis
    using h
      check_file_status_classifies [OF h, of "\<lparr>info_path = ''/srv/new.sh'', info_sha256 = ''aa''\<rparr>"]
      check_file_status_classifies [OF h, of "\<lparr>info_path = ''/srv/payload.exe'', info_sha256 = ''aa''\<rparr>"]
      check_file_status_classifies [OF h, of "\<lparr>info_path = ''/srv/payload.exe'', info_sha256 = ''bb''\<rparr>"]
    by (simp add: example_db_def digest_history_def)
qed

text \<open>
  C9. Classification reads and does not write: the state after the call, which holds
  the cached registry, the registry file and the alert log, is the state before it.
\<close>

theorem check_file_status_pure: "snd (check_file_status fi st) = st"
  by (simp add: check_file_status_def split: option.split)

subsection \<open>Recording\<close>

lemma alert_loop_absent:
  "info_path fi \<notin> path ` set db \<Longrightarrow> alert_loop fi c db = (db, [])"
  by (induction db) (auto simp: alert_entry_def)

lemma alert_entry_recorded:
  "path f = info_path fi \<longrightarrow> info_sha256 fi \<in> set (sha256 f) \<Longrightarrow>
   alert_entry fi FILE_KNOWN_UNTOUCHED f = (f, [])"
  by (auto simp: alert_entry_def)

lemma alert_loop_recorded:
  "\<forall>f\<in>set db. path f = info_path fi \<longrightarrow> info_sha256 fi \<in> set (sha256 f) \<Longrightarrow>
   alert_loop fi FILE_KNOWN_UNTOUCHED db = (db, [])"
  by (induction db) (auto simp: alert_entry_recorded)

lemma recorded_history:
  "recorded db p d \<Longrightarrow> \<exists>h. digest_history db p = Some h \<and> d \<in> set h"
  by (induction db) (auto simp: recorded_def digest_history_def)

lemma distinct_recorded:
  assumes "distinct (map path db)" and "digest_history db p = Some h" and "d \<in> set h"
  shows "recorded db p d"
proof -
  from assms(2) obtain f where f: "find (\<lambda>f. path f = p) db = Some f" "h = sha256 f"
    by (auto simp: digest_history_def)
  from f(1) have fin: "f \<in> set db" "path f = p"
    by (auto simp: find_Some_iff)
  have inj: "inj_on path (set db)"
    using assms(1) by (simp add: distinct_map)
  have uniq: "g = f" if "g \<in> set db" "path g = p" for g
  proof -
    from that fin have eq: "path g = path f" by simp
    from inj eq that(1) fin(1) show ?thesis by (rule inj_onD)
  qed
  have "d \<in> set (sha256 g)" if "g \<in> set db" "path g = p" for g
    using uniq [OF that] f(2) assms(3) by simp
  with fin show ?thesis
    unfolding recorded_def by blast
qed

text \<open>
  C10. \<^verbatim>\<open>add_alert_do_db\<close> for a path that no record of the registry file has, whatever
  the status: the file is written once more with the list it held, the cache is set to
  that list, nothing is logged, and nothing else changes. \<^verbatim>\<open>add_file_to_db\<close> on the
  same state is what appends the record of the path.
\<close>

theorem add_alert_do_db_absent_path:
  assumes "db_json st = Json db" and "info_path fi \<notin> path ` set db"
  shows "add_alert_do_db fi c st = Inr (st\<lparr>cached_db := Some db, db_writes := db_writes st + 1\<rparr>)
       \<and> (\<exists>st'. add_file_to_db fi st = Inr st'
             \<and> db_json st' = Json (db @ [\<lparr>path = info_path fi, sha256 = [info_sha256 fi]\<rparr>]))"
  using assms
  by (simp add: add_alert_do_db_def add_file_to_db_def json_load_Json alert_loop_absent write_to_db_def Let_def)

theorem add_alert_do_db_absent_path_witness:
  "db_json example_state = Json example_db
   \<and> ''/srv/new.sh'' \<notin> path ` set example_db
   \<and> add_alert_do_db \<lparr>info_path = ''/srv/new.sh'', info_sha256 = ''cc''\<rparr> FILE_UNKNOWN example_state
       = Inr (example_state\<lparr>db_writes := 1\<rparr>)"
proof -
  have h1: "db_json example_state = Json example_db"
    by (simp add: example_state_def)
  have h2: "info_path \<lparr>info_path = ''/srv/new.sh'', info_sha256 = ''cc''\<rparr> \<notin> path ` set example_db"
    by (simp add: example_db_def)
  show ?thesis
    using h1 h2 add_alert_do_db_absent_path [OF h1 h2, of FILE_UNKNOWN]
    by (simp add: example_state_def)
qed

lemma add_alert_untouched:
  assumes "db_json st = Json db" and "recorded db (info_path fi) (info_sha256 fi)"
  shows "add_alert_do_db fi FILE_KNOWN_UNTOUCHED st
           = Inr (st\<lparr>cached_db := Some db, db_writes := db_writes st + 1\<rparr>)"
  using assms
  by (simp add: add_alert_do_db_def json_load_Json alert_loop_recorded write_to_db_def recorded_def)

lemma reobserve_n:
  assumes "db_json st = Json db" and "recorded db (info_path fi) (info_sha256 fi)"
  shows "record_all (replicate n (Add_alert fi FILE_KNOWN_UNTOUCHED)) st
           = Inr (if n = 0 then st else st\<lparr>cached_db := Some db, db_writes := db_writes st + n\<rparr>)"
  using assms
proof (induction n arbitrary: st)
  case 0
  then show ?case by simp
next
  case (Suc n)
  let ?st1 = "st\<lparr>cached_db := Some db, db_writes := db_writes st + 1\<rparr>"
  have step: "add_alert_do_db fi FILE_KNOWN_UNTOUCHED st = Inr ?st1"
    using Suc.prems by (rule add_alert_untouched)
  have "db_json ?st1 = Json db" using Suc.prems by simp
  from Suc.IH [OF this Suc.prems(2)]
  have "record_all (replicate n (Add_alert fi FILE_KNOWN_UNTOUCHED)) ?st1
          = Inr (st\<lparr>cached_db := Some db, db_writes := db_writes st + Suc n\<rparr>)"
    by (cases n) simp_all
  with step show ?case by simp
qed

text \<open>
  Both writers leave the observation recorded and the cache equal to the file: the
  first observation of a new path through \<^verbatim>\<open>add_file_to_db\<close>, a later one through
  \<^verbatim>\<open>add_alert_do_db\<close>.
\<close>

lemma add_file_to_db_records:
  assumes "db_json st = Json db" and "info_path fi \<notin> path ` set db"
  shows "\<exists>st' db'. add_file_to_db fi st = Inr st' \<and> db_json st' = Json db'
           \<and> cached_db st' = Some db' \<and> recorded db' (info_path fi) (info_sha256 fi)"
proof -
  from assms(2) have "\<forall>f\<in>set db. path f \<noteq> info_path fi"
    by (auto simp add: image_iff)
  then have "recorded (db @ [\<lparr>path = info_path fi, sha256 = [info_sha256 fi]\<rparr>])
               (info_path fi) (info_sha256 fi)"
    by (simp add: recorded_def)
  then show ?thesis
    using assms(1) by (simp add: add_file_to_db_def json_load_Json write_to_db_def Let_def)
qed

lemma alert_loop_records:
  "\<forall>f\<in>set (fst (alert_loop fi c db)). path f = info_path fi \<longrightarrow> info_sha256 fi \<in> set (sha256 f)"
  by (induction db) (auto simp add: alert_entry_def Let_def split: prod.splits)

lemma alert_loop_paths: "map path (fst (alert_loop fi c db)) = map path db"
  by (induction db) (auto simp add: alert_entry_def Let_def split: prod.splits)

lemma add_alert_do_db_records:
  assumes "db_json st = Json db" and "info_path fi \<in> path ` set db"
  shows "\<exists>st' db'. add_alert_do_db fi c st = Inr st' \<and> db_json st' = Json db'
           \<and> cached_db st' = Some db' \<and> recorded db' (info_path fi) (info_sha256 fi)"
proof -
  obtain db' msgs where l: "alert_loop fi c db = (db', msgs)"
    by (cases "alert_loop fi c db")
  have "set (map path db') = set (map path db)"
    using alert_loop_paths [of fi c db] l by simp
  with assms(2) have "info_path fi \<in> path ` set db'"
    by simp
  then have "\<exists>f\<in>set db'. path f = info_path fi"
    by (auto simp add: image_iff)
  moreover have "\<forall>f\<in>set db'. path f = info_path fi \<longrightarrow> info_sha256 fi \<in> set (sha256 f)"
    using alert_loop_records [of fi c db] l by simp
  ultimately have "recorded db' (info_path fi) (info_sha256 fi)"
    by (simp add: recorded_def)
  then show ?thesis
    using assms(1) l by (simp add: add_alert_do_db_def json_load_Json write_to_db_def)
qed

text \<open>
  C2. Once a digest is recorded for a path, in the registry file and in the cache alike,
  recording the same observation again any number \<open>n\<close> of times succeeds, and after it
  the observation is classified \<^verbatim>\<open>FILE_KNOWN_UNTOUCHED\<close>, the registry file holds the
  list it held (it is rewritten with it: only the count of writes grows), and no
  message was logged.
\<close>

theorem reobserve_idempotent:
  assumes "db_json st = Json db" and "cached_db st = Some db"
    and "recorded db (info_path fi) (info_sha256 fi)"
  shows "\<exists>st'. record_all (replicate n (Add_alert fi FILE_KNOWN_UNTOUCHED)) st = Inr st'
           \<and> fst (check_file_status fi st') = Inr (Some FILE_KNOWN_UNTOUCHED)
           \<and> db_json st' = Json db \<and> cached_db st' = Some db
           \<and> logged st' = logged st \<and> alerts_log st' = alerts_log st
           \<and> db_writes st' = db_writes st + n"
proof -
  let ?st' = "if n = 0 then st else st\<lparr>cached_db := Some db, db_writes := db_writes st + n\<rparr>"
  have run: "record_all (replicate n (Add_alert fi FILE_KNOWN_UNTOUCHED)) st = Inr ?st'"
    using assms(1,3) by (rule reobserve_n)
  have cache: "cached_db ?st' = Some db"
    using assms(2) by simp
  from recorded_history [OF assms(3)]
  obtain h where h: "digest_history db (info_path fi) = Some h" "info_sha256 fi \<in> set h"
    by blast
  have "fst (check_file_status fi ?st') = Inr (check_loop fi False db)"
    using cache by (simp add: check_file_status_def)
  then have "fst (check_file_status fi ?st') = Inr (Some FILE_KNOWN_UNTOUCHED)"
    using h by (simp add: check_loop_history)
  with run cache assms(1) show ?thesis
    by (intro exI [of _ ?st']) simp
qed

theorem reobserve_idempotent_witness:
  "db_json example_state = Json example_db \<and> cached_db example_state = Some example_db
   \<and> recorded example_db ''/srv/payload.exe'' ''aa''
   \<and> (\<exists>st'. record_all (replicate 3
            (Add_alert \<lparr>info_path = ''/srv/payload.exe'', info_sha256 = ''aa''\<rparr> FILE_KNOWN_UNTOUCHED))
          example_state = Inr st'
        \<and> db_json st' = Json example_db \<and> logged st' = [] \<and> db_writes st' = 3)"
proof -
  have h1: "db_json example_state = Json example_db"
    and h2: "cached_db example_state = Some example_db"
    by (simp_all add: example_state_def)
  have h3: "recorded example_db (info_path \<lparr>info_path = ''/srv/payload.exe'', info_sha256 = ''aa''\<rparr>)
              (info_sha256 \<lparr>info_path = ''/srv/payload.exe'', info_sha256 = ''aa''\<rparr>)"
    by (simp add: recorded_def example_db_def)
  from reobserve_idempotent [OF h1 h2 h3, of 3]
  obtain st' where "record_all (replicate 3
            (Add_alert \<lparr>info_path = ''/srv/payload.exe'', info_sha256 = ''aa''\<rparr> FILE_KNOWN_UNTOUCHED))
          example_state = Inr st'"
      "db_json st' = Json example_db" "logged st' = logged example_state"
      "db_writes st' = db_writes example_state + 3"
    by blast
  then have "\<exists>st'. record_all (replicate 3
            (Add_alert \<lparr>info_path = ''/srv/payload.exe'', info_sha256 = ''aa''\<rparr> FILE_KNOWN_UNTOUCHED))
          example_state = Inr st'
        \<and> db_json st' = Json example_db \<and> logged st' = [] \<and> db_writes st' = 3"
    by (auto simp add: example_state_def)
  with h1 h2 h3 show ?thesis by simp
qed

subsection \<open>Growth of the digest histories\<close>

lemma hist_rel_refl: "hist_rel n f f"
  by (simp add: hist_rel_def)

lemma hist_rel_trans:
  assumes "hist_rel n f g" and "hist_rel m g h"
  shows "hist_rel (n + m) f h"
proof -
  from assms(1) obtain e1 where e1: "sha256 g = sha256 f @ e1" "distinct e1"
      "set e1 \<inter> set (sha256 f) = {}" "length e1 \<le> n" and p1: "path g = path f"
    by (auto simp: hist_rel_def)
  from assms(2) obtain e2 where e2: "sha256 h = sha256 g @ e2" "distinct e2"
      "set e2 \<inter> set (sha256 g) = {}" "length e2 \<le> m" and p2: "path h = path g"
    by (auto simp: hist_rel_def)
  have "sha256 h = sha256 f @ (e1 @ e2)" using e1(1) e2(1) by simp
  moreover have "distinct (e1 @ e2)" using e1(1,2) e2(2,3) by auto
  moreover have "set (e1 @ e2) \<inter> set (sha256 f) = {}" using e1(1,3) e2(3) by auto
  moreover have "length (e1 @ e2) \<le> n + m" using e1(4) e2(4) by simp
  ultimately show ?thesis
    unfolding hist_rel_def using p1 p2 by (intro conjI exI [of _ "e1 @ e2"]) simp_all
qed

lemma alert_entry_hist_rel: "hist_rel 1 f (fst (alert_entry fi c f))"
  by (simp add: alert_entry_def hist_rel_def Let_def)

lemma alert_loop_hist_rel: "list_all2 (hist_rel 1) db (fst (alert_loop fi c db))"
proof (induction db)
  case Nil
  then show ?case by simp
next
  case (Cons f fs)
  have "hist_rel 1 f (fst (alert_entry fi c f))" by (rule alert_entry_hist_rel)
  with Cons show ?case
    by (simp add: case_prod_beta)
qed

lemma db_rel_trans:
  assumes "db_rel n a b" and "db_rel m b c"
  shows "db_rel (n + m) a c"
proof -
  from assms have len: "length a \<le> length b" "length b \<le> length c"
    by (simp_all add: db_rel_def)
  from assms(2) have "list_all2 (hist_rel m) (take (length a) b) (take (length a) (take (length b) c))"
    unfolding db_rel_def by (blast intro: list_all2_takeI)
  then have bc: "list_all2 (hist_rel m) (take (length a) b) (take (length a) c)"
    using len by (simp add: min_absorb1)
  from assms(1) have ab: "list_all2 (hist_rel n) a (take (length a) b)"
    by (simp add: db_rel_def)
  have "list_all2 (hist_rel (n + m)) a (take (length a) c)"
    using hist_rel_trans ab bc by (rule list_all2_trans)
  with len show ?thesis by (simp add: db_rel_def)
qed

lemma record_step_db_rel:
  assumes "db_json st = Json db"
  shows "\<exists>st' db'. record_step x st = Inr st' \<and> db_json st' = Json db' \<and> db_rel 1 db db'"
proof (cases x)
  case (Add_alert fi c)
  obtain db' msgs where l: "alert_loop fi c db = (db', msgs)" by (cases "alert_loop fi c db")
  have "list_all2 (hist_rel 1) db db'" using alert_loop_hist_rel [of db fi c] l by simp
  then have "db_rel 1 db db'" by (simp add: db_rel_def list_all2_lengthD)
  then show ?thesis
    using assms Add_alert l
    by (simp add: add_alert_do_db_def json_load_def write_to_db_def)
next
  case (Add_file fi)
  have "list_all2 (hist_rel 1) db db" by (simp add: list_all2_refl hist_rel_refl)
  then have "db_rel 1 db (db @ [\<lparr>path = info_path fi, sha256 = [info_sha256 fi]\<rparr>])"
    by (simp add: db_rel_def)
  then show ?thesis
    using assms Add_file
    by (simp add: add_file_to_db_def json_load_def write_to_db_def Let_def)
qed

lemma record_all_db_rel:
  assumes "db_json st = Json db"
  shows "\<exists>st' db'. record_all xs st = Inr st' \<and> db_json st' = Json db'
           \<and> db_rel (length xs) db db'"
  using assms
proof (induction xs arbitrary: st db)
  case Nil
  have "db_rel 0 db db" by (simp add: db_rel_def list_all2_refl hist_rel_refl)
  with Nil show ?case by simp
next
  case (Cons x xs)
  from record_step_db_rel [OF Cons.prems, of x]
  obtain st1 db1 where s1: "record_step x st = Inr st1" "db_json st1 = Json db1" "db_rel 1 db db1"
    by blast
  from Cons.IH [OF s1(2)]
  obtain st2 db2 where s2: "record_all xs st1 = Inr st2" "db_json st2 = Json db2"
      "db_rel (length xs) db1 db2"
    by blast
  have "db_rel (1 + length xs) db db2" using s1(3) s2(3) by (rule db_rel_trans)
  with s1(1) s2(1,2) show ?case by simp
qed

lemma list_all2_history:
  assumes "list_all2 (hist_rel n) db db1" and "digest_history db p = Some h"
  shows "\<exists>ext. digest_history (db1 @ rest) p = Some (h @ ext) \<and> distinct ext
           \<and> set ext \<inter> set h = {} \<and> length ext \<le> n"
  using assms
proof (induction rule: list_all2_induct)
  case Nil
  then show ?case by (simp add: digest_history_def)
next
  case (Cons f fs g gs)
  show ?case
  proof (cases "path f = p")
    case True
    with Cons.prems have "h = sha256 f" by (simp add: digest_history_def)
    with True Cons.hyps(1) show ?thesis
      by (auto simp: digest_history_def hist_rel_def)
  next
    case False
    with Cons.prems have "digest_history fs p = Some h" by (simp add: digest_history_def)
    from Cons.IH [OF this] False Cons.hyps(1) show ?thesis
      by (simp add: digest_history_def hist_rel_def)
  qed
qed

lemma db_rel_history:
  assumes "db_rel n db db'" and "digest_history db p = Some h"
  shows "\<exists>ext. digest_history db' p = Some (h @ ext) \<and> distinct ext
           \<and> set ext \<inter> set h = {} \<and> length ext \<le> n"
proof -
  from assms(1) have "list_all2 (hist_rel n) db (take (length db) db')"
    by (simp add: db_rel_def)
  from list_all2_history [OF this assms(2), of "drop (length db) db'"]
  show ?thesis by simp
qed

lemma db_rel_paths:
  assumes "db_rel n db db'"
  shows "map path (take (length db) db') = map path db"
proof -
  from assms have "list_all2 (hist_rel n) db (take (length db) db')"
    by (simp add: db_rel_def)
  then show ?thesis
    by (induction rule: list_all2_induct) (simp_all add: hist_rel_def)
qed

text \<open>
  C3. Any sequence of record operations on a readable registry file succeeds, and
  leaves the records that were there at their places with their paths. The digest
  history of every path keeps its entries in their order: the history after the
  sequence is the history before it followed by digests that are all different, none
  of which was in the history before, and at most one per operation.
\<close>

theorem history_append_only:
  assumes "db_json st = Json db"
  shows "\<exists>st' db'. record_all ops st = Inr st' \<and> db_json st' = Json db'
           \<and> map path (take (length db) db') = map path db
           \<and> (\<forall>p h. digest_history db p = Some h \<longrightarrow>
                 (\<exists>ext. digest_history db' p = Some (h @ ext) \<and> distinct ext
                    \<and> set ext \<inter> set h = {} \<and> length ext \<le> length ops))"
proof -
  from record_all_db_rel [OF assms, of ops]
  obtain st' db' where r: "record_all ops st = Inr st'" "db_json st' = Json db'"
      "db_rel (length ops) db db'"
    by blast
  from r(3) have "map path (take (length db) db') = map path db" by (rule db_rel_paths)
  moreover have "\<forall>p h. digest_history db p = Some h \<longrightarrow>
                 (\<exists>ext. digest_history db' p = Some (h @ ext) \<and> distinct ext
                    \<and> set ext \<inter> set h = {} \<and> length ext \<le> length ops)"
    using db_rel_history [OF r(3)] by blast
  ultimately show ?thesis using r(1,2) by blast
qed

theorem history_append_only_witness:
  "db_json example_state = Json example_db
   \<and> digest_history example_db ''/srv/payload.exe'' = Some [''aa'']
   \<and> (\<exists>st' db'. record_all
          [Add_alert \<lparr>info_path = ''/srv/payload.exe'', info_sha256 = ''bb''\<rparr> FILE_KNOWN_TOUCHED,
           Add_file \<lparr>info_path = ''/srv/new.sh'', info_sha256 = ''cc''\<rparr>,
           Add_alert \<lparr>info_path = ''/srv/payload.exe'', info_sha256 = ''aa''\<rparr> FILE_KNOWN_UNTOUCHED]
          example_state = Inr st' \<and> db_json st' = Json db'
        \<and> (\<exists>ext. digest_history db' ''/srv/payload.exe'' = Some ([''aa''] @ ext) \<and> distinct ext
              \<and> set ext \<inter> set [''aa''] = {} \<and> length ext \<le> 3))"
proof -
  have h: "db_json example_state = Json example_db"
    by (simp add: example_state_def)
  have d: "digest_history example_db ''/srv/payload.exe'' = Some [''aa'']"
    by (simp add: digest_history_def example_db_def)
  from history_append_only [OF h, of
      "[Add_alert \<lparr>info_path = ''/srv/payload.exe'', info_sha256 = ''bb''\<rparr> FILE_KNOWN_TOUCHED,
        Add_file \<lparr>info_path = ''/srv/new.sh'', info_sha256 = ''cc''\<rparr>,
        Add_alert \<lparr>info_path = ''/srv/payload.exe'', info_sha256 = ''aa''\<rparr> FILE_KNOWN_UNTOUCHED]"]
  obtain st' db' where r: "record_all
          [Add_alert \<lparr>info_path = ''/srv/payload.exe'', info_sha256 = ''bb''\<rparr> FILE_KNOWN_TOUCHED,
           Add_file \<lparr>info_path = ''/srv/new.sh'', info_sha256 = ''cc''\<rparr>,
           Add_alert \<lparr>info_path = ''/srv/payload.exe'', info_sha256 = ''aa''\<rparr> FILE_KNOWN_UNTOUCHED]
          example_state = Inr st'" "db_json st' = Json db'"
      and g: "\<forall>p h. digest_history example_db p = Some h \<longrightarrow>
                 (\<exists>ext. digest_history db' p = Some (h @ ext) \<and> distinct ext
                    \<and> set ext \<inter> set h = {} \<and> length ext \<le> length
      [Add_alert \<lparr>info_path = ''/srv/payload.exe'', info_sha256 = ''bb''\<rparr> FILE_KNOWN_TOUCHED,
        Add_file \<lparr>info_path = ''/srv/new.sh'', info_sha256 = ''cc''\<rparr>,
        Add_alert \<lparr>info_path = ''/srv/payload.exe'', info_sha256 = ''aa''\<rparr> FILE_KNOWN_UNTOUCHED])"
    by blast
  from g d have "\<exists>ext. digest_history db' ''/srv/payload.exe'' = Some ([''aa''] @ ext) \<and> distinct ext
              \<and> set ext \<inter> set [''aa''] = {} \<and> length ext \<le> 3"
    by fastforce
  with h d r show ?thesis by blast
qed

subsection \<open>Alerts\<close>


text \<open>
  The messages the loop hands to \<^verbatim>\<open>logging.info\<close>: one for each record of the path
  when the status is \<^verbatim>\<open>FILE_UNKNOWN\<close> or \<^verbatim>\<open>FILE_KNOWN_TOUCHED\<close>. With logging left
  unconfigured they are dropped by the root logger.
\<close>

lemma alert_loop_msgs:
  "snd (alert_loop fi c db) =
     (if c = FILE_KNOWN_UNTOUCHED then []
      else replicate (length (filter (\<lambda>f. path f = info_path fi) db))
             (if c = FILE_UNKNOWN
              then ''New file detected: '' @ info_path fi @ '' - hash: '' @ info_sha256 fi
              else ''Modified file detected: '' @ info_path fi @ '' - new hash: '' @ info_sha256 fi))"
  by (induction db; cases c) (auto simp add: alert_entry_def Let_def split: prod.splits)





subsection \<open>Startup\<close>

text \<open>
  C6, as the code has it. When the target is not a directory the program prints its
  message and leaves through \<^verbatim>\<open>exit()\<close> called without a status, before anything is
  scheduled on the observer and before a signal handler is installed; the exit status
  of \<^verbatim>\<open>exit()\<close> is 0.
\<close>

theorem scan_invalid_target:
  assumes "\<not> isdir (dir a)"
  shows "fst (main isdir a st) = SystemExit None
       \<and> process_status (fst (main isdir a st)) = Some 0
       \<and> printed (snd (main isdir a st))
           = printed st @ [Text (''Error: '' @ dir a @ '' could not be read, exiting.'')]
       \<and> watches (snd (main isdir a st)) = watches st
       \<and> sigint (snd (main isdir a st)) = sigint st"
  using assms by (simp add: main_def scan_def Let_def)

theorem scan_invalid_target_witness:
  "\<not> example_isdir (dir (example_args ''/missing''))
   \<and> process_status (fst (main example_isdir (example_args ''/missing'') example_state)) = Some 0
   \<and> printed (snd (main example_isdir (example_args ''/missing'') example_state))
       = [Text ''Error: /missing could not be read, exiting.'']
   \<and> watches (snd (main example_isdir (example_args ''/missing'') example_state)) = []"
proof -
  have h: "\<not> example_isdir (dir (example_args ''/missing''))"
    by (simp add: example_isdir_def example_args_def)
  show ?thesis
    using h scan_invalid_target [of example_isdir "example_args ''/missing''" example_state]
    by (simp add: example_args_def example_state_def)
qed

text \<open>
  The claim C6 as the specification words it fails on the exit status: for a target
  that is not a directory the status is 0.
\<close>

theorem exit_status_counterexample:
  "\<not> example_isdir ''/missing''
   \<and> process_status (fst (main example_isdir (example_args ''/missing'') example_state)) = Some 0"
  by (simp add: example_isdir_def example_args_def main_def scan_def Let_def)

text \<open>
  What the wipe does when it is run and \<^verbatim>\<open>db.json\<close> exists: both files are removed and
  created again, so that the registry file holds the empty list, the cache is the
  empty list and the alert log is empty.
\<close>

lemma prepare_data_files_wipe:
  assumes "wipe a" and "db_json st \<noteq> Missing"
  shows "db_json (prepare_data_files a st) = Json []
       \<and> cached_db (prepare_data_files a st) = Some []
       \<and> alerts_log (prepare_data_files a st) = Some []"
proof -
  have w: "db_json (wipe_block a st) = Missing \<and> alerts_log (wipe_block a st) = None"
    using assms
    by (cases "alerts_log st") (simp_all add: wipe_block_def remove_db_json_def remove_alerts_log_def)
  then show ?thesis
    by (simp add: prepare_data_files_def refresh_cache_def json_load_def Let_def)
qed

text \<open>A run of the program never touches the registry file, the alert log or the cache.\<close>

lemma main_keeps_files:
  "db_json (snd (main isdir a st)) = db_json st
   \<and> alerts_log (snd (main isdir a st)) = alerts_log st
   \<and> cached_db (snd (main isdir a st)) = cached_db st"
  by (simp add: main_def scan_def Let_def)

text \<open>
  C7. With \<^verbatim>\<open>--wipe\<close> the registry and the alert log are to be empty after startup,
  whatever they held (the help of the option: start with a clean \<^verbatim>\<open>db.json\<close> and
  \<^verbatim>\<open>alerts.log\<close>; the comment in \<^verbatim>\<open>prepare_data_files\<close>: wipe both). The code does not
  do this. A run of \<^verbatim>\<open>main\<close> with \<^verbatim>\<open>--wipe\<close> on a directory, over a registry with a
  record and an alert log with a line, reaches \<^verbatim>\<open>observer.join()\<close> with both files as
  they were, since \<^verbatim>\<open>main\<close> does not call \<^verbatim>\<open>prepare_data_files\<close>. And
  \<^verbatim>\<open>prepare_data_files\<close> itself, called with \<^verbatim>\<open>wipe\<close> set when \<^verbatim>\<open>db.json\<close> is absent,
  keeps the line of the alert log: the first removal raises and the second is skipped.
\<close>

theorem wipe_keeps_files:
  "wipe (example_args ''/srv'')
   \<and> fst (main example_isdir (example_args ''/srv'') example_state) = Observer_join
   \<and> db_json (snd (main example_isdir (example_args ''/srv'') example_state))
       = Json [\<lparr>path = ''/srv/payload.exe'', sha256 = [''aa'']\<rparr>]
   \<and> alerts_log (snd (main example_isdir (example_args ''/srv'') example_state))
       = Some [''Modified file detected: /srv/old.sh'']
   \<and> alerts_log (prepare_data_files (example_args ''/srv'') (example_state\<lparr>db_json := Missing\<rparr>))
       = Some [''Modified file detected: /srv/old.sh'']
   \<and> db_json (prepare_data_files (example_args ''/srv'') (example_state\<lparr>db_json := Missing\<rparr>))
       = Json []"
  by (simp add: example_args_def example_isdir_def example_state_def example_db_def
      main_def scan_def prepare_data_files_def wipe_block_def remove_db_json_def
      refresh_cache_def json_load_def Let_def)

subsection \<open>The filter\<close>

lemma dangerous_extensions_upper: "\<forall>e\<in>dangerous_extensions. map upper_char e = e"
  by (simp add: dangerous_extensions_def upper_char_def)

lemma exe_listed: "''EXE'' \<in> dangerous_extensions"
  by (simp add: dangerous_extensions_def)

lemma txt_not_listed: "''TXT'' \<notin> dangerous_extensions"
  by (simp add: dangerous_extensions_def)

lemma is_relevant_upper:
  "is_relevant p False \<longleftrightarrow> map upper_char (extension p) \<in> dangerous_extensions"
proof
  assume "is_relevant p False"
  then obtain e where e: "e \<in> dangerous_extensions" "map upper_char (extension p) = map upper_char e"
    by (auto simp add: is_relevant_def same_ignoring_case_def)
  from e(1) have "map upper_char e = e"
    using dangerous_extensions_upper by blast
  with e show "map upper_char (extension p) \<in> dangerous_extensions"
    by simp
next
  assume a: "map upper_char (extension p) \<in> dangerous_extensions"
  then have "map upper_char (map upper_char (extension p)) = map upper_char (extension p)"
    using dangerous_extensions_upper by blast
  then have "same_ignoring_case (extension p) (map upper_char (extension p))"
    by (simp add: same_ignoring_case_def)
  with a show "is_relevant p False"
    unfolding is_relevant_def by blast
qed

text \<open>
  C8. Without \<open>trackAll\<close> a path is relevant exactly when its extension agrees, case
  aside, with an entry of \<^verbatim>\<open>dangerous_extensions\<close>; every entry of the list is in upper
  case, so this is the same as the upper-cased extension being an entry. With
  \<open>trackAll\<close> every path is relevant. \<^verbatim>\<open>payload.exe\<close> is relevant and \<^verbatim>\<open>notes.txt\<close> is
  not, unless \<open>trackAll\<close> is set.
\<close>

theorem is_relevant_filter:
  "(is_relevant p False \<longleftrightarrow> (\<exists>e\<in>dangerous_extensions. same_ignoring_case (extension p) e))
   \<and> (is_relevant p False \<longleftrightarrow> map upper_char (extension p) \<in> dangerous_extensions)
   \<and> is_relevant p True
   \<and> is_relevant ''payload.exe'' False
   \<and> \<not> is_relevant ''notes.txt'' False
   \<and> is_relevant ''notes.txt'' True"
proof -
  have e1: "map upper_char (extension ''payload.exe'') = ''EXE''"
    by (simp add: extension_def basename_def upper_char_def)
  have e2: "map upper_char (extension ''notes.txt'') = ''TXT''"
    by (simp add: extension_def basename_def upper_char_def)
  have "is_relevant ''payload.exe'' False"
    using e1 exe_listed by (simp add: is_relevant_upper)
  moreover have "\<not> is_relevant ''notes.txt'' False"
    using e2 txt_not_listed by (simp add: is_relevant_upper)
  moreover have "is_relevant p False \<longleftrightarrow> (\<exists>e\<in>dangerous_extensions. same_ignoring_case (extension p) e)"
    by (simp add: is_relevant_def)
  moreover have "is_relevant q True" for q
    by (simp add: is_relevant_def)
  ultimately show ?thesis
    using is_relevant_upper [of p] by blast
qed

end
